theory Spec2Isabelle
  imports Complex_Main "HOL-Library.Sublist"
begin

section \<open>The OCR engine as seen by the service\<close>

text \<open>
  The module \<open>services/image_recognition_easyocr.py\<close> wraps the EasyOCR library. The
  library is external: its constructor \<open>easyocr.Reader(languages)\<close> and the method
  \<open>reader.readtext(path, detail=...)\<close> are parameters of the model. Each of them may
  return a value or raise, and each may write text to standard output while it runs
  (the module-level function redirects standard output around both calls, so what the
  engine prints is part of what that function can return).
\<close>

type_synonym path = string

text \<open>
  A raised Python exception, with the text that \<open>str(e)\<close> gives for it. The handlers of
  the module are all \<open>except Exception as e\<close>: they catch instances of \<open>Exception\<close> and of
  its subclasses, and let pass the exceptions that derive from \<open>BaseException\<close> only
  (\<open>KeyboardInterrupt\<close>, \<open>SystemExit\<close>, \<open>GeneratorExit\<close>).
\<close>

datatype exn = Exception string | BaseExceptionOnly string

section \<open>Python floats\<close>

text \<open>
  The confidences are Python floats: IEEE 754 binary64 numbers, with the two infinities
  and NaN. A finite float is modelled by the real number it denotes (the two zeros are
  not told apart, and there is one NaN). Every arithmetic operation computes the exact
  real result and rounds it to the nearest binary64 number, ties to even, overflowing to
  an infinity: this is \<open>round64\<close>.
\<close>

datatype pyfloat = Finite real | PosInf | NegInf | NaN

text \<open>\<open>int.bit_length\<close>: the number of binary digits of a natural number.\<close>

fun bit_length :: "nat \<Rightarrow> nat" where
  "bit_length 0 = 0"
| "bit_length (Suc n) = Suc (bit_length (Suc n div 2))"

text \<open>Rounding to the nearest integer, a tie going to the even neighbour.\<close>

definition round_half_even :: "real \<Rightarrow> int" where
  "round_half_even x =
     (let f = \<lfloor>x\<rfloor>; d = x - of_int f
      in if d < 1 / 2 then f else if 1 / 2 < d then f + 1 else if even f then f else f + 1)"

text \<open>
  The distance between neighbouring binary64 numbers around \<open>x\<close>. In units of \<open>2^-1074\<close>
  (the smallest positive float) a magnitude below \<open>2^53\<close> lies on the grid of step 1: the
  subnormal numbers and the first binade; each further binary digit doubles the step,
  which leaves 53 significant digits.
\<close>

definition ulp :: "real \<Rightarrow> real" where
  "ulp x = 2 ^ (bit_length (nat \<lfloor>\<bar>x\<bar> * 2 ^ 1074\<rfloor>) - 53) / 2 ^ 1074"

definition round64 :: "real \<Rightarrow> pyfloat" where
  "round64 x =
     (let u = ulp x; r = of_int (round_half_even (x / u)) * u
      in if 2 ^ 1024 \<le> r then PosInf else if r \<le> - (2 ^ 1024) then NegInf else Finite r)"

text \<open>\<open>a + b\<close> on floats.\<close>

fun float_add :: "pyfloat \<Rightarrow> pyfloat \<Rightarrow> pyfloat" where
  "float_add (Finite x) (Finite y) = round64 (x + y)"
| "float_add NaN _ = NaN"
| "float_add _ NaN = NaN"
| "float_add PosInf NegInf = NaN"
| "float_add NegInf PosInf = NaN"
| "float_add PosInf _ = PosInf"
| "float_add _ PosInf = PosInf"
| "float_add NegInf _ = NegInf"
| "float_add _ NegInf = NegInf"

text \<open>The IEEE quotient of two floats, for a divisor that is not zero.\<close>

fun float_div :: "pyfloat \<Rightarrow> pyfloat \<Rightarrow> pyfloat" where
  "float_div (Finite x) (Finite y) = round64 (x / y)"
| "float_div NaN _ = NaN"
| "float_div _ NaN = NaN"
| "float_div (Finite x) _ = Finite 0"
| "float_div PosInf (Finite y) = (if 0 < y then PosInf else NegInf)"
| "float_div NegInf (Finite y) = (if 0 < y then NegInf else PosInf)"
| "float_div _ _ = NaN"

text \<open>\<open>a / b\<close> on floats: Python raises \<open>ZeroDivisionError\<close> when the divisor is zero.\<close>

definition float_truediv :: "pyfloat \<Rightarrow> pyfloat \<Rightarrow> exn + pyfloat" where
  "float_truediv a b =
     (if b = Finite 0 then Inl (Exception ''float division by zero'') else Inr (float_div a b))"

text \<open>
  The conversion of a length to a float, which \<open>/\<close> applies to an \<open>int\<close> operand. (A length
  is below \<open>2^63\<close>, so the conversion does not overflow.)
\<close>

definition int_to_float :: "nat \<Rightarrow> pyfloat" where
  "int_to_float n = round64 (real n)"

text \<open>
  \<open>sum(xs)\<close> on a list of floats: the items are added from left to right, starting from
  0, each addition rounded. (This is the summation of CPython up to version 3.11; later
  versions compensate the rounding errors when every item is exactly of type \<open>float\<close>.)
\<close>

definition py_sum :: "pyfloat list \<Rightarrow> pyfloat" where
  "py_sum xs = foldl float_add (Finite 0) xs"

text \<open>\<open>a <= b\<close> on floats: every comparison with NaN is false.\<close>

fun float_le :: "pyfloat \<Rightarrow> pyfloat \<Rightarrow> bool" where
  "float_le NaN _ = False"
| "float_le _ NaN = False"
| "float_le NegInf _ = True"
| "float_le _ PosInf = True"
| "float_le (Finite x) (Finite y) = (x \<le> y)"
| "float_le _ _ = False"

text \<open>
  With \<open>detail=1\<close> the engine returns one triple (bounding box, text, confidence) for each
  detected region; with \<open>detail=0\<close> it returns the recognized strings only.
\<close>

type_synonym bbox = "int list list"
type_synonym region = "bbox \<times> string \<times> pyfloat"

text \<open>
  An engine handle. Each call yields the text written to standard output during the call,
  and either the raised exception (\<open>Inl\<close>) or the returned list (\<open>Inr\<close>).
\<close>

record reader =
  readtext0 :: "path \<Rightarrow> string \<times> (exn + string list)"
  readtext1 :: "path \<Rightarrow> string \<times> (exn + region list)"

record easyocr =
  Reader :: "string list \<Rightarrow> string \<times> (exn + reader)"

section \<open>Built-in string operations used by the module\<close>

text \<open>\<open>sep.join(xs)\<close>\<close>

fun join :: "string \<Rightarrow> string list \<Rightarrow> string" where
  "join sep [] = []"
| "join sep [x] = x"
| "join sep (x # y # ys) = x @ sep @ join sep (y # ys)"

text \<open>
  \<open>s.lower()\<close>, on the ASCII letters; every other character is left as it is. (All the
  suffixes that the module compares against are ASCII.)
\<close>

definition lower_char :: "char \<Rightarrow> char" where
  "lower_char c =
     (let n = (of_char c :: nat) in if 65 \<le> n \<and> n \<le> 90 then char_of (n + 32) else c)"

definition lower :: "string \<Rightarrow> string" where
  "lower s = map lower_char s"

text \<open>\<open>s.endswith(suf)\<close>: the last \<open>len(suf)\<close> characters of \<open>s\<close> are compared with \<open>suf\<close>.\<close>

definition endswith :: "string \<Rightarrow> string \<Rightarrow> bool" where
  "endswith s suf = (length suf \<le> length s \<and> drop (length s - length suf) s = suf)"

text \<open>What \<open>print(s)\<close> writes: the string and a newline.\<close>

definition print_line :: "string \<Rightarrow> string" where
  "print_line s = s @ [CHR 0x0A]"

section \<open>The class \<open>ImageRecognitionService\<close>\<close>

record service =
  languages :: "string list"
  reader :: reader

text \<open>
  \<open>__init__(self, languages=None)\<close>: \<open>languages if languages else ['en']\<close> takes the default
  for \<open>None\<close> and for the empty list, both falsy. The engine is constructed outside any
  handler, so an exception of the constructor propagates and no instance exists.
\<close>

definition init :: "easyocr \<Rightarrow> string list option \<Rightarrow> exn + service" where
  "init lib langs =
     (let ls = (case langs of
                  None \<Rightarrow> [''en'']
                | Some l \<Rightarrow> if l = [] then [''en''] else l)
      in case snd (Reader lib ls) of
           Inl e \<Rightarrow> Inl e
         | Inr r \<Rightarrow> Inr \<lparr>languages = ls, reader = r\<rparr>)"

text \<open>
  The methods are written in state-passing style: each returns its result together with
  the instance as the call leaves it. A result is \<open>Inr\<close> of the returned tuple, or \<open>Inl\<close> of
  an exception that the method lets through.
\<close>

definition detect_document ::
  "service \<Rightarrow> path \<Rightarrow> (exn + string \<times> string option) \<times> service" where
  "detect_document self p =
     (case snd (readtext0 (reader self) p) of
        Inr result \<Rightarrow>
          if result = [] then (Inr ('''', Some ''No text detected in the image''), self)
          else (let extracted_text = join '' '' result
                in (Inr (extracted_text, None), self))
      | Inl (Exception m) \<Rightarrow> (Inr ('''', Some (''Error processing image: '' @ m)), self)
      | Inl (BaseExceptionOnly m) \<Rightarrow> (Inl (BaseExceptionOnly m), self))"

definition detect_document_with_confidence ::
  "service \<Rightarrow> path \<Rightarrow> (exn + string \<times> pyfloat \<times> string option) \<times> service" where
  "detect_document_with_confidence self p =
     (case snd (readtext1 (reader self) p) of
        Inr result \<Rightarrow>
          if result = []
          then (Inr ('''', Finite 0, Some ''No text detected in the image''), self)
          else (let extracted_text = join '' '' (map (\<lambda>(_, text, _). text) result);
                    confidences = map (\<lambda>(_, _, conf). conf) result
                in case (if confidences \<noteq> []
                         then float_truediv (py_sum confidences)
                                (int_to_float (length confidences))
                         else Inr (Finite 0)) of
                     Inr average_confidence \<Rightarrow>
                       (Inr (extracted_text, average_confidence, None), self)
                   | Inl (Exception m) \<Rightarrow>
                       (Inr ('''', Finite 0, Some (''Error processing image: '' @ m)), self)
                   | Inl (BaseExceptionOnly m) \<Rightarrow> (Inl (BaseExceptionOnly m), self))
      | Inl (Exception m) \<Rightarrow>
          (Inr ('''', Finite 0, Some (''Error processing image: '' @ m)), self)
      | Inl (BaseExceptionOnly m) \<Rightarrow> (Inl (BaseExceptionOnly m), self))"

definition supported_formats :: "string list" where
  "supported_formats = [''.jpg'', ''.jpeg'', ''.png'', ''.gif'', ''.bmp'', ''.webp'', ''.ico'']"

definition is_supported_format :: "service \<Rightarrow> path \<Rightarrow> bool \<times> service" where
  "is_supported_format self file_path =
     (list_ex (\<lambda>fmt. endswith (lower file_path) fmt) supported_formats, self)"

section \<open>The module-level function \<open>detect_document\<close>\<close>

text \<open>
  The function collects in \<open>output\<close> everything written to standard output inside the
  \<open>with\<close> block: what the constructor and \<open>readtext\<close> print, then what the function prints
  itself. The constructor runs inside the \<open>with\<close> block but before the \<open>try\<close>. The function
  returns one string.
\<close>

definition detect_document_fn :: "easyocr \<Rightarrow> path \<Rightarrow> exn + string" where
  "detect_document_fn lib p =
     (case Reader lib [''en''] of
        (out0, Inl e) \<Rightarrow> Inl e
      | (out0, Inr rd) \<Rightarrow>
          (case readtext0 rd p of
             (out1, Inr result) \<Rightarrow>
               if result = []
               then Inr (out0 @ out1 @ print_line ''No text detected in the image'')
               else (let extracted_text = join '' '' result in Inr extracted_text)
           | (out1, Inl (Exception m)) \<Rightarrow>
               Inr (out0 @ out1 @ print_line (''Error processing image: '' @ m))
           | (out1, Inl (BaseExceptionOnly m)) \<Rightarrow> Inl (BaseExceptionOnly m)))"

section \<open>Sequences of calls on one instance\<close>

datatype call =
  Detect_document path
| Detect_document_with_confidence path
| Is_supported_format path

datatype outcome =
  Text_result "exn + string \<times> string option"
| Confidence_result "exn + string \<times> pyfloat \<times> string option"
| Format_result bool

fun invoke :: "service \<Rightarrow> call \<Rightarrow> outcome \<times> service" where
  "invoke self (Detect_document p) =
     (case detect_document self p of (r, self') \<Rightarrow> (Text_result r, self'))"
| "invoke self (Detect_document_with_confidence p) =
     (case detect_document_with_confidence self p of (r, self') \<Rightarrow> (Confidence_result r, self'))"
| "invoke self (Is_supported_format p) =
     (case is_supported_format self p of (r, self') \<Rightarrow> (Format_result r, self'))"

fun run :: "service \<Rightarrow> call list \<Rightarrow> outcome list \<times> service" where
  "run self [] = ([], self)"
| "run self (c # cs) =
     (case invoke self c of (r, self') \<Rightarrow>
        (case run self' cs of (rs, self'') \<Rightarrow> (r # rs, self'')))"

section \<open>Concrete engines\<close>

text \<open>An engine that recognizes the two lines \<open>Hello\<close> and \<open>world\<close> in every image.\<close>

definition hello_reader :: reader where
  "hello_reader =
     \<lparr>readtext0 = (\<lambda>p. ('''', Inr [''Hello'', ''world''])),
      readtext1 = (\<lambda>p. ('''', Inr [([[0, 0], [40, 0], [40, 10], [0, 10]], ''Hello'',
                                     Finite (1 / 2)),
                                   ([[0, 20], [40, 20], [40, 30], [0, 30]], ''world'',
                                     Finite 1)]))\<rparr>"

text \<open>An engine that finds no region in any image.\<close>

definition blank_reader :: reader where
  "blank_reader = \<lparr>readtext0 = (\<lambda>p. ('''', Inr [])), readtext1 = (\<lambda>p. ('''', Inr []))\<rparr>"

text \<open>An engine that cannot open the file: \<open>readtext\<close> raises an \<open>Exception\<close>.\<close>

definition raising_reader :: reader where
  "raising_reader =
     \<lparr>readtext0 = (\<lambda>p. ('''', Inl (Exception ''cannot open file''))),
      readtext1 = (\<lambda>p. ('''', Inl (Exception ''cannot open file'')))\<rparr>"

text \<open>An engine interrupted while it reads (an exception outside \<open>Exception\<close>).\<close>

definition interrupted_reader :: reader where
  "interrupted_reader =
     \<lparr>readtext0 = (\<lambda>p. ('''', Inl (BaseExceptionOnly ''interrupted''))),
      readtext1 = (\<lambda>p. ('''', Inl (BaseExceptionOnly ''interrupted'')))\<rparr>"

text \<open>An engine that detects one region and recognizes the empty string in it.\<close>

definition empty_line_reader :: reader where
  "empty_line_reader =
     \<lparr>readtext0 = (\<lambda>p. ('''', Inr [''''])),
      readtext1 = (\<lambda>p. ('''', Inr [([[0, 0], [40, 0], [40, 10], [0, 10]], '''',
                                     Finite (1 / 4))]))\<rparr>"


text \<open>An instance holding a given engine handle.\<close>

definition service_of :: "reader \<Rightarrow> service" where
  "service_of rd = \<lparr>languages = [''en''], reader = rd\<rparr>"

text \<open>
  Three libraries: one whose constructor prints nothing and returns a given handle, one
  whose constructor raises, and one whose constructor prints a progress line (as on a
  first run, when the models are fetched) and returns the engine that finds no region.
\<close>

definition quiet_lib :: "reader \<Rightarrow> easyocr" where
  "quiet_lib rd = \<lparr>Reader = (\<lambda>langs. ('''', Inr rd))\<rparr>"

definition failing_lib :: easyocr where
  "failing_lib = \<lparr>Reader = (\<lambda>langs. ('''', Inl (Exception ''model file missing'')))\<rparr>"

definition chatty_lib :: easyocr where
  "chatty_lib = \<lparr>Reader = (\<lambda>langs. (''Progress: 100.0% Complete'', Inr blank_reader))\<rparr>"

section \<open>Properties\<close>

subsection \<open>Facts about binary64 rounding\<close>

lemma bit_length_upper: "n < 2 ^ bit_length n"
proof (induction n rule: bit_length.induct)
  case 1
  show ?case by simp
next
  case (2 n)
  then have "Suc n < 2 * 2 ^ bit_length (Suc n div 2)" by linarith
  then show ?case by simp
qed

lemma bit_length_pos: "0 < n \<Longrightarrow> 0 < bit_length n"
  by (cases n) simp_all

lemma bit_length_lower: "0 < n \<Longrightarrow> 2 ^ (bit_length n - 1) \<le> n"
proof (induction n rule: bit_length.induct)
  case 1
  then show ?case by simp
next
  case (2 n)
  show ?case
  proof (cases "Suc n div 2 = 0")
    case True
    then show ?thesis by simp
  next
    case False
    with 2 have "2 ^ (bit_length (Suc n div 2) - 1) \<le> Suc n div 2" by simp
    moreover from False have "0 < bit_length (Suc n div 2)"
      by (simp add: bit_length_pos)
    ultimately have "2 ^ bit_length (Suc n div 2) \<le> 2 * (Suc n div 2)"
      by (cases "bit_length (Suc n div 2)") simp_all
    then have "2 ^ bit_length (Suc n div 2) \<le> Suc n" by linarith
    then show ?thesis by simp
  qed
qed

lemma bit_length_eqI:
  assumes "2 ^ m \<le> n" and "n < 2 ^ Suc m"
  shows "bit_length n = Suc m"
proof -
  from assms have pos: "0 < n"
    by (metis gr0I not_less_eq_eq not_one_le_zero one_le_numeral one_le_power order.trans le_zero_eq)
  have "(2::nat) ^ m < 2 ^ bit_length n"
    using assms(1) bit_length_upper [of n] by linarith
  then have "m < bit_length n" by (simp add: power_strict_increasing_iff)
  moreover have "(2::nat) ^ (bit_length n - 1) < 2 ^ Suc m"
    using assms(2) bit_length_lower [OF pos] by linarith
  then have "bit_length n - 1 < Suc m" by (simp only: power_strict_increasing_iff one_less_numeral_iff semiring_norm)
  ultimately show ?thesis by linarith
qed

lemma bit_length_le: "n < 2 ^ m \<Longrightarrow> bit_length n \<le> m"
proof (cases "n = 0")
  case True
  then show ?thesis by simp
next
  case False
  assume "n < 2 ^ m"
  moreover from False have "0 < n" by simp
  then have "2 ^ (bit_length n - 1) \<le> n"
    by (rule bit_length_lower)
  ultimately have "(2::nat) ^ (bit_length n - 1) < 2 ^ m" by linarith
  then have "bit_length n - 1 < m"
    by (simp only: power_strict_increasing_iff one_less_numeral_iff semiring_norm)
  moreover from False have "0 < bit_length n" by (simp add: bit_length_pos)
  ultimately show ?thesis by linarith
qed

lemma bit_length_gt: "2 ^ m \<le> n \<Longrightarrow> m < bit_length n"
proof -
  assume "2 ^ m \<le> n"
  with bit_length_upper [of n] have "(2::nat) ^ m < 2 ^ bit_length n" by linarith
  then show ?thesis
    by (simp only: power_strict_increasing_iff one_less_numeral_iff semiring_norm)
qed

lemma round_half_even_le: "x \<le> of_int m \<Longrightarrow> round_half_even x \<le> m"
  unfolding round_half_even_def Let_def
  by (auto simp: floor_le_iff le_floor_iff)

lemma round_half_even_ge: "of_int m \<le> x \<Longrightarrow> m \<le> round_half_even x"
proof -
  assume "of_int m \<le> x"
  then have "m \<le> \<lfloor>x\<rfloor>" by (simp add: le_floor_iff)
  then show ?thesis
    unfolding round_half_even_def Let_def by auto
qed

lemma scaled_lower: "2 ^ m \<le> z \<Longrightarrow> 2 ^ m \<le> nat \<lfloor>z::real\<rfloor>"
proof -
  assume "2 ^ m \<le> z"
  then have "real (2 ^ m) \<le> z" by simp
  then show ?thesis by (rule le_nat_floor)
qed

lemma scaled_upper: "0 \<le> z \<Longrightarrow> z < 2 ^ m \<Longrightarrow> nat \<lfloor>z::real\<rfloor> < 2 ^ m"
proof -
  assume "0 \<le> z" "z < 2 ^ m"
  then have "real (nat \<lfloor>z\<rfloor>) \<le> z" by simp
  with \<open>z < 2 ^ m\<close> have "real (nat \<lfloor>z\<rfloor>) < 2 ^ m" by linarith
  then have "real (nat \<lfloor>z\<rfloor>) < real (2 ^ m)" by (simp only: of_nat_power of_nat_numeral)
  then show ?thesis by (simp only: of_nat_less_iff)
qed

lemma ulp_binade:
  assumes "2 ^ m \<le> \<bar>x\<bar> * 2 ^ 1074" and "\<bar>x\<bar> * 2 ^ 1074 < 2 ^ Suc m"
  shows "ulp x = 2 ^ (Suc m - 53) / 2 ^ 1074"
proof -
  have "bit_length (nat \<lfloor>\<bar>x\<bar> * 2 ^ 1074\<rfloor>) = Suc m"
    using assms by (intro bit_length_eqI scaled_lower scaled_upper) simp_all
  then show ?thesis by (simp only: ulp_def)
qed

lemma ulp_subnormal:
  assumes "\<bar>x\<bar> * 2 ^ 1074 < 2 ^ 53"
  shows "ulp x = 1 / 2 ^ 1074"
proof -
  have "bit_length (nat \<lfloor>\<bar>x\<bar> * 2 ^ 1074\<rfloor>) \<le> 53"
    using assms by (intro bit_length_le scaled_upper) simp_all
  then show ?thesis by (simp only: ulp_def diff_is_0_eq' power_0)
qed

lemma ulp_small:
  assumes "\<bar>x\<bar> < 2 ^ 53"
  shows "\<exists>j. ulp x = 1 / 2 ^ j"
proof -
  let ?b = "bit_length (nat \<lfloor>\<bar>x\<bar> * 2 ^ 1074\<rfloor>)"
  from assms have "\<bar>x\<bar> * 2 ^ 1074 < 2 ^ 53 * 2 ^ 1074" by simp
  then have "\<bar>x\<bar> * 2 ^ 1074 < 2 ^ 1127" by (simp only: power_add [symmetric]) simp
  then have "?b \<le> 1127"
    by (intro bit_length_le scaled_upper) simp_all
  then have le: "?b - 53 \<le> 1074" by linarith
  have "(2::real) ^ (?b - 53) / 2 ^ 1074 = 1 / 2 ^ (1074 - (?b - 53))"
    using le by (simp only: power_diff_conv_inverse [of 2 "?b - 53" 1074]) (simp add: field_simps power_diff)
  then show ?thesis unfolding ulp_def by blast
qed

lemma ulp_big:
  assumes "2 ^ 53 \<le> \<bar>x\<bar>"
  shows "2 \<le> ulp x" and "2 ^ 52 * ulp x \<le> \<bar>x\<bar>"
proof -
  let ?y = "nat \<lfloor>\<bar>x\<bar> * 2 ^ 1074\<rfloor>"
  let ?b = "bit_length ?y"
  from assms have "2 ^ 53 * 2 ^ 1074 \<le> \<bar>x\<bar> * 2 ^ 1074" by simp
  then have "2 ^ 1127 \<le> \<bar>x\<bar> * 2 ^ 1074" by (simp only: power_add [symmetric]) simp
  then have y: "2 ^ 1127 \<le> ?y" by (rule scaled_lower)
  then have b: "1127 < ?b" by (rule bit_length_gt)
  from y have "0 < ?y" by (metis gr0I not_one_le_zero one_le_numeral one_le_power order.trans le_zero_eq)
  then have "2 ^ (?b - 1) \<le> ?y" by (rule bit_length_lower)
  then have "real (2 ^ (?b - 1)) \<le> real ?y" by (simp only: of_nat_le_iff)
  also have "real ?y \<le> \<bar>x\<bar> * 2 ^ 1074" by simp
  finally have low: "2 ^ (?b - 1) \<le> \<bar>x\<bar> * 2 ^ 1074" by simp
  have split: "?b - 1 = 52 + (?b - 53)" using b by linarith
  have "2 ^ 52 * ulp x = 2 ^ (?b - 1) / 2 ^ 1074"
    unfolding ulp_def split power_add by simp
  also have "\<dots> \<le> \<bar>x\<bar>" using low by (simp add: field_simps)
  finally show "2 ^ 52 * ulp x \<le> \<bar>x\<bar>" .
  have "(2::real) ^ 1075 \<le> 2 ^ (?b - 53)"
    using b by (intro power_increasing) simp_all
  then have "(2::real) ^ 1075 / 2 ^ 1074 \<le> ulp x"
    unfolding ulp_def by (simp add: divide_right_mono)
  then show "2 \<le> ulp x" by simp
qed


lemma round64_finite:
  assumes "r = of_int (round_half_even (x / ulp x)) * ulp x" and "- (2 ^ 1024) < r" and "r < 2 ^ 1024"
  shows "round64 x = Finite r"
  using assms by (simp add: round64_def Let_def)

lemma round64_2_53:
  assumes "2 ^ 53 \<le> x" and "x \<le> 2 ^ 53 + 1"
  shows "round64 x = Finite (2 ^ 53)"
proof -
  have abs: "\<bar>x\<bar> = x" using assms(1) by (simp add: order_trans [OF _ assms(1)])
  have "2 ^ 53 * 2 ^ 1074 \<le> x * 2 ^ 1074" using assms(1) by simp
  then have lo: "2 ^ 1127 \<le> \<bar>x\<bar> * 2 ^ 1074"
    unfolding abs by (simp only: power_add [symmetric]) simp
  have "(2::real) ^ 53 + 1 < 2 ^ 54" by simp
  with assms(2) have "x < 2 ^ 54" by linarith
  then have "x * 2 ^ 1074 < 2 ^ 54 * 2 ^ 1074" by simp
  then have hi: "\<bar>x\<bar> * 2 ^ 1074 < 2 ^ Suc 1127"
    unfolding abs by (simp only: power_add [symmetric]) simp
  have "ulp x = 2 ^ (Suc 1127 - 53) / 2 ^ 1074"
    using lo hi by (rule ulp_binade)
  also have "\<dots> = 2 ^ 1075 / 2 ^ 1074" by simp
  also have "\<dots> = 2" by simp
  finally have u: "ulp x = 2" .
  have fl: "\<lfloor>x / 2\<rfloor> = 2 ^ 52"
    using assms by (simp add: floor_eq_iff) 
  have "round_half_even (x / 2) = 2 ^ 52"
    using assms unfolding round_half_even_def Let_def fl by (auto simp: not_less)
  then have r: "of_int (round_half_even (x / ulp x)) * ulp x = (2::real) ^ 53"
    unfolding u by simp
  show ?thesis
    by (rule round64_finite) (simp_all add: r)
qed

lemma round64_le_nat:
  assumes "0 \<le> x" and "x \<le> real k" and "k \<le> 2 ^ 53"
  shows "\<exists>r. round64 x = Finite r \<and> 0 \<le> r \<and> r \<le> real k"
proof (cases "x < 2 ^ 53")
  case True
  with assms(1) have "\<bar>x\<bar> < 2 ^ 53" by simp
  then obtain j where u: "ulp x = 1 / 2 ^ j" using ulp_small by blast
  let ?m = "round_half_even (x * 2 ^ j)"
  let ?r = "real_of_int ?m / 2 ^ j"
  have "x * 2 ^ j \<le> real k * 2 ^ j" using assms(2) by simp
  then have "x * 2 ^ j \<le> of_int (int k * 2 ^ j)" by simp
  then have "?m \<le> int k * 2 ^ j" by (rule round_half_even_le)
  then have "real_of_int ?m \<le> real_of_int (int k * 2 ^ j)" by (simp only: of_int_le_iff)
  then have "real_of_int ?m \<le> real k * 2 ^ j" by simp
  then have hi: "?r \<le> real k" by (simp add: field_simps)
  have "of_int 0 \<le> x * 2 ^ j" using assms(1) by simp
  then have "0 \<le> ?m" by (rule round_half_even_ge)
  then have lo: "0 \<le> ?r" by simp
  have "real k \<le> 2 ^ 53" using assms(3) by (metis of_nat_le_iff of_nat_numeral of_nat_power)
  also have "(2::real) ^ 53 < 2 ^ 1024" by simp
  finally have "real k < 2 ^ 1024" .
  with hi have b1: "?r < 2 ^ 1024" by linarith
  have "- ((2::real) ^ 1024) < 0" by simp
  with lo have b2: "- (2 ^ 1024) < ?r" by linarith
  have "round64 x = Finite ?r"
  proof (rule round64_finite)
    show "?r = of_int (round_half_even (x / ulp x)) * ulp x" by (simp add: u)
  qed (fact b2, fact b1)
  with lo hi show ?thesis by blast
next
  case False
  have k: "real k \<le> 2 ^ 53" using assms(3) by (metis of_nat_le_iff of_nat_numeral of_nat_power)
  with False assms(2) have x: "x = 2 ^ 53" and kx: "real k = 2 ^ 53" by linarith+
  have "round64 x = Finite (2 ^ 53)"
    by (rule round64_2_53) (simp_all add: x)
  with kx show ?thesis by simp
qed

lemma round64_ge_nat:
  assumes "real k \<le> x" and "k \<le> 2 ^ 53"
  shows "round64 x = PosInf \<or> (\<exists>r. round64 x = Finite r \<and> real k \<le> r)"
proof -
  have x0: "0 \<le> x" using assms(1) by (rule order_trans [rotated]) simp
  have k: "real k \<le> 2 ^ 53" using assms(2) by (metis of_nat_le_iff of_nat_numeral of_nat_power)
  let ?r = "of_int (round_half_even (x / ulp x)) * ulp x"
  have "real k \<le> ?r"
  proof (cases "x < 2 ^ 53")
    case True
    with x0 have "\<bar>x\<bar> < 2 ^ 53" by simp
    then obtain j where u: "ulp x = 1 / 2 ^ j" using ulp_small by blast
    have "real k * 2 ^ j \<le> x * 2 ^ j" using assms(1) by simp
    then have "of_int (int k * 2 ^ j) \<le> x * 2 ^ j" by simp
    then have "int k * 2 ^ j \<le> round_half_even (x * 2 ^ j)" by (rule round_half_even_ge)
    then have "real_of_int (int k * 2 ^ j) \<le> real_of_int (round_half_even (x * 2 ^ j))"
      by (simp only: of_int_le_iff)
    then have "real k * 2 ^ j \<le> real_of_int (round_half_even (x * 2 ^ j))" by simp
    then show ?thesis unfolding u by (simp add: field_simps)
  next
    case False
    with x0 have big: "2 ^ 53 \<le> \<bar>x\<bar>" by simp
    have u2: "2 \<le> ulp x" and low: "2 ^ 52 * ulp x \<le> \<bar>x\<bar>"
      using ulp_big [OF big] by simp_all
    from u2 have upos: "0 < ulp x" by linarith
    from low x0 have "2 ^ 52 * ulp x \<le> x" by simp
    with upos have "2 ^ 52 \<le> x / ulp x" by (simp add: field_simps)
    then have "of_int (2 ^ 52) \<le> x / ulp x" by simp
    then have "2 ^ 52 \<le> round_half_even (x / ulp x)" by (rule round_half_even_ge)
    then have "real_of_int (2 ^ 52) \<le> real_of_int (round_half_even (x / ulp x))"
      by (simp only: of_int_le_iff)
    then have "2 ^ 52 \<le> real_of_int (round_half_even (x / ulp x))" by simp
    then have "2 ^ 52 * ulp x \<le> ?r" using upos by (intro mult_right_mono) simp_all
    moreover have "(2::real) ^ 52 * 2 \<le> 2 ^ 52 * ulp x" using u2 by (intro mult_left_mono) simp_all
    moreover have "(2::real) ^ 53 = 2 ^ 52 * 2" by simp
    ultimately have "2 ^ 53 \<le> ?r" by linarith
    with k show ?thesis by linarith
  qed
  moreover have "0 \<le> real k" by simp
  ultimately have "0 \<le> ?r" by linarith
  then have "\<not> ?r \<le> - (2 ^ 1024)" by simp
  with \<open>real k \<le> ?r\<close> show ?thesis
    by (simp add: round64_def Let_def)
qed


lemma int_to_float_exact: "k \<le> 2 ^ 53 \<Longrightarrow> int_to_float k = Finite (real k)"
  using round64_le_nat [of "real k" k] round64_ge_nat [of k "real k"]
  by (auto simp: int_to_float_def)

lemma int_to_float_pos:
  assumes "0 < n"
  shows "int_to_float n = PosInf \<or> (\<exists>d. int_to_float n = Finite d \<and> 1 \<le> d \<and> real (min n (2 ^ 53)) \<le> d)"
proof -
  have "real (min n (2 ^ 53)) \<le> real n" by simp
  moreover have "min n (2 ^ 53) \<le> 2 ^ 53" by simp
  ultimately have "round64 (real n) = PosInf
      \<or> (\<exists>r. round64 (real n) = Finite r \<and> real (min n (2 ^ 53)) \<le> r)"
    by (rule round64_ge_nat)
  moreover have "1 \<le> real (min n (2 ^ 53))" using assms by (simp add: Suc_le_eq)
  ultimately show ?thesis unfolding int_to_float_def by fastforce
qed

lemma float_add_unit:
  assumes "0 \<le> a" and "a \<le> real k" and "a \<le> 2 ^ 53" and "0 \<le> x" and "x \<le> 1"
  shows "\<exists>a'. round64 (a + x) = Finite a' \<and> 0 \<le> a' \<and> a' \<le> real (Suc k) \<and> a' \<le> 2 ^ 53"
proof (cases "a + x \<le> 2 ^ 53")
  case True
  let ?K = "min (Suc k) (2 ^ 53)"
  have "a + x \<le> real (Suc k)" using assms by simp
  with True have "a + x \<le> real ?K" by (simp add: min_def)
  moreover have "0 \<le> a + x" using assms by simp
  moreover have "?K \<le> 2 ^ 53" by simp
  ultimately obtain r where "round64 (a + x) = Finite r" "0 \<le> r" "r \<le> real ?K"
    using round64_le_nat [of "a + x" ?K] by blast
  moreover have "real ?K \<le> real (Suc k)" "real ?K \<le> 2 ^ 53"
    by (simp_all add: min_def)
  ultimately show ?thesis by (intro exI [of _ r]) linarith
next
  case False
  then have "2 ^ 53 \<le> a + x" by simp
  moreover have "a + x \<le> 2 ^ 53 + 1" using assms by simp
  ultimately have "round64 (a + x) = Finite (2 ^ 53)" by (rule round64_2_53)
  moreover have "(2::real) ^ 53 \<le> real (Suc k)" using False assms by simp
  ultimately show ?thesis by simp
qed

lemma foldl_float_add_unit:
  assumes "\<forall>c \<in> set cs. \<exists>x. c = Finite x \<and> 0 \<le> x \<and> x \<le> 1"
      and "0 \<le> a" and "a \<le> real k" and "a \<le> 2 ^ 53"
  shows "\<exists>s. foldl float_add (Finite a) cs = Finite s \<and> 0 \<le> s
           \<and> s \<le> real (k + length cs) \<and> s \<le> 2 ^ 53"
  using assms
proof (induction cs arbitrary: a k)
  case Nil
  then show ?case by simp
next
  case (Cons c cs)
  then obtain x where c: "c = Finite x" and x: "0 \<le> x" "x \<le> 1" by auto
  obtain a' where a': "round64 (a + x) = Finite a'" "0 \<le> a'" "a' \<le> real (Suc k)" "a' \<le> 2 ^ 53"
    using float_add_unit [OF Cons.prems(2-4) x] by blast
  have "\<exists>s. foldl float_add (Finite a') cs = Finite s \<and> 0 \<le> s
           \<and> s \<le> real (Suc k + length cs) \<and> s \<le> 2 ^ 53"
    using Cons.prems(1) a'(2-4) by (intro Cons.IH) simp_all
  then show ?case by (simp add: c a'(1))
qed

lemma average_defined:
  assumes "cs \<noteq> []"
  shows "float_truediv (py_sum cs) (int_to_float (length cs))
           = Inr (float_div (py_sum cs) (int_to_float (length cs)))"
proof -
  have "0 < length cs" using assms by simp
  then have "int_to_float (length cs) \<noteq> Finite 0"
    using int_to_float_pos [of "length cs"] by auto
  then show ?thesis by (simp add: float_truediv_def)
qed

lemma average_unit:
  assumes "cs \<noteq> []" and "\<forall>c \<in> set cs. float_le (Finite 0) c \<and> float_le c (Finite 1)"
  shows "\<exists>r. float_div (py_sum cs) (int_to_float (length cs)) = Finite r \<and> 0 \<le> r \<and> r \<le> 1"
proof -
  have unit: "\<forall>c \<in> set cs. \<exists>x. c = Finite x \<and> 0 \<le> x \<and> x \<le> 1"
  proof
    fix c assume "c \<in> set cs"
    with assms(2) have "float_le (Finite 0) c \<and> float_le c (Finite 1)" by blast
    then show "\<exists>x. c = Finite x \<and> 0 \<le> x \<and> x \<le> 1" by (cases c) simp_all
  qed
  obtain s where s: "py_sum cs = Finite s" "0 \<le> s" "s \<le> real (length cs)" "s \<le> 2 ^ 53"
    using foldl_float_add_unit [OF unit, of 0 0] by (auto simp: py_sum_def)
  have n: "0 < length cs" using assms(1) by simp
  have smin: "s \<le> real (min (length cs) (2 ^ 53))" using s(3,4) by (simp add: min_def)
  from int_to_float_pos [OF n] show ?thesis
  proof
    assume "int_to_float (length cs) = PosInf"
    then show ?thesis by (simp add: s(1))
  next
    assume "\<exists>d. int_to_float (length cs) = Finite d \<and> 1 \<le> d
              \<and> real (min (length cs) (2 ^ 53)) \<le> d"
    then obtain d where d: "int_to_float (length cs) = Finite d" "1 \<le> d"
        "real (min (length cs) (2 ^ 53)) \<le> d" by blast
    from d(2) have dpos: "0 < d" by linarith
    from smin d(3) have "s \<le> d" by linarith
    with dpos have "s / d \<le> real 1" by simp
    moreover from s(2) dpos have "0 \<le> s / d" by simp
    ultimately obtain r where "round64 (s / d) = Finite r" "0 \<le> r" "r \<le> real 1"
      using round64_le_nat [of "s / d" 1] by auto
    then show ?thesis by (simp add: s(1) d(1))
  qed
qed

subsection \<open>Evaluating the rounding at a given number\<close>

lemma round64_zero: "round64 0 = Finite 0"
  by (rule round64_finite) (simp_all add: round_half_even_def)

lemma round64_scaled:
  assumes u: "ulp x = 2 ^ a / 2 ^ b" and m: "\<bar>x\<bar> * 2 ^ b < 2 ^ 53 * 2 ^ a" and a: "a \<le> b + 970"
  shows "round64 x = Finite (of_int (round_half_even (x * 2 ^ b / 2 ^ a)) * 2 ^ a / 2 ^ b)"
proof -
  let ?q = "x * 2 ^ b / 2 ^ a"
  let ?m = "round_half_even ?q"
  let ?r = "real_of_int ?m * 2 ^ a / 2 ^ b"
  have "\<bar>?q\<bar> = \<bar>x\<bar> * 2 ^ b / 2 ^ a" by (simp add: abs_mult)
  also have "\<dots> < 2 ^ 53" using m by (simp add: field_simps)
  finally have q: "\<bar>?q\<bar> < 2 ^ 53" .
  from q have "?q < 2 ^ 53" and "- (2 ^ 53) < ?q"
    by (simp_all only: abs_less_iff) linarith+
  then have "?q \<le> 2 ^ 53" "- (2 ^ 53) \<le> ?q" by (simp_all only: less_imp_le)
  then have up: "?q \<le> of_int (2 ^ 53)" and dn: "of_int (- (2 ^ 53)) \<le> ?q" by simp_all
  have "?m \<le> 2 ^ 53" using up by (rule round_half_even_le)
  moreover have "- (2 ^ 53) \<le> ?m" using dn by (rule round_half_even_ge)
  ultimately have "\<bar>?m\<bar> \<le> 2 ^ 53" by simp
  then have "\<bar>real_of_int ?m\<bar> \<le> 2 ^ 53"
    by (metis of_int_abs of_int_le_iff of_int_numeral of_int_power)
  then have "\<bar>real_of_int ?m\<bar> * (2 ^ a / 2 ^ b) \<le> 2 ^ 53 * (2 ^ a / 2 ^ b)"
    by (intro mult_right_mono) simp_all
  also have "(2::real) ^ 53 * (2 ^ a / 2 ^ b) = 2 ^ (53 + a) / 2 ^ b"
    by (simp add: power_add)
  also have "\<dots> \<le> 2 ^ (b + 1023) / 2 ^ b"
    using a by (intro divide_right_mono power_increasing) simp_all
  also have "\<dots> = 2 ^ 1023" by (simp add: power_add)
  also have "\<dots> < (2::real) ^ 1024" by (intro power_strict_increasing) simp_all
  finally have "\<bar>?r\<bar> < 2 ^ 1024" by (simp add: abs_mult)
  then have "- (2 ^ 1024) < ?r" "?r < 2 ^ 1024" by (simp_all only: abs_less_iff) linarith+
  moreover have "?r = of_int (round_half_even (x / ulp x)) * ulp x"
    unfolding u by (simp add: field_simps)
  ultimately show ?thesis by (intro round64_finite)
qed

lemma round64_below_one:
  assumes "1 \<le> \<bar>x\<bar> * 2 ^ n" and "\<bar>x\<bar> * 2 ^ n < 2" and "n \<le> 1022"
  shows "round64 x = Finite (of_int (round_half_even (x * 2 ^ (n + 52))) / 2 ^ (n + 52))"
proof -
  have split: "(2::real) ^ 1074 = 2 ^ n * 2 ^ (1074 - n)"
    using assms(3) by (simp only: power_add [symmetric]) simp
  have "1 * 2 ^ (1074 - n) \<le> (\<bar>x\<bar> * 2 ^ n) * 2 ^ (1074 - n)"
    using assms(1) by (intro mult_right_mono) simp_all
  then have lo: "2 ^ (1074 - n) \<le> \<bar>x\<bar> * 2 ^ 1074"
    unfolding split by (simp add: mult.assoc)
  have "(\<bar>x\<bar> * 2 ^ n) * 2 ^ (1074 - n) < 2 * 2 ^ (1074 - n)"
    using assms(2) by (intro mult_strict_right_mono) simp_all
  then have hi: "\<bar>x\<bar> * 2 ^ 1074 < 2 ^ Suc (1074 - n)"
    unfolding split by (simp add: mult.assoc)
  have "ulp x = 2 ^ (Suc (1074 - n) - 53) / 2 ^ 1074"
    using lo hi by (rule ulp_binade)
  also have "Suc (1074 - n) - 53 = 1022 - n" using assms(3) by simp
  also have "(2::real) ^ 1074 = 2 ^ (1022 - n) * 2 ^ (n + 52)"
    using assms(3) by (simp only: power_add [symmetric]) simp
  finally have u: "ulp x = 2 ^ 0 / 2 ^ (n + 52)" by simp
  have "\<bar>x\<bar> * 2 ^ (n + 52) = (\<bar>x\<bar> * 2 ^ n) * 2 ^ 52" by (simp add: power_add)
  also have "\<dots> < 2 * 2 ^ 52" using assms(2) by (intro mult_strict_right_mono) simp_all
  finally have m: "\<bar>x\<bar> * 2 ^ (n + 52) < 2 ^ 53 * 2 ^ 0" by simp
  show ?thesis
    using round64_scaled [OF u m] by simp
qed

lemma round64_above_one:
  assumes "2 ^ n \<le> \<bar>x\<bar>" and "\<bar>x\<bar> < 2 * 2 ^ n" and "n \<le> 1022"
  shows "round64 x = Finite (of_int (round_half_even (x * 2 ^ 52 / 2 ^ n)) * 2 ^ n / 2 ^ 52)"
proof -
  have "2 ^ n * 2 ^ 1074 \<le> \<bar>x\<bar> * 2 ^ 1074"
    using assms(1) by (intro mult_right_mono) simp_all
  then have lo: "2 ^ (n + 1074) \<le> \<bar>x\<bar> * 2 ^ 1074" by (simp only: power_add)
  have "\<bar>x\<bar> * 2 ^ 1074 < (2 * 2 ^ n) * 2 ^ 1074"
    using assms(2) by (intro mult_strict_right_mono) simp_all
  then have hi: "\<bar>x\<bar> * 2 ^ 1074 < 2 ^ Suc (n + 1074)" by (simp only: power_add power_Suc)
  have "ulp x = 2 ^ (Suc (n + 1074) - 53) / 2 ^ 1074"
    using lo hi by (rule ulp_binade)
  also have "Suc (n + 1074) - 53 = n + 1022" by simp
  also have "(2::real) ^ 1074 = 2 ^ 1022 * 2 ^ 52"
    by (simp only: power_add [symmetric]) simp
  finally have u: "ulp x = 2 ^ n / 2 ^ 52" by (simp add: power_add)
  have "\<bar>x\<bar> * 2 ^ 52 < (2 * 2 ^ n) * 2 ^ 52"
    using assms(2) by (intro mult_strict_right_mono) simp_all
  also have "\<dots> = 2 ^ 53 * 2 ^ n" by simp
  finally have m: "\<bar>x\<bar> * 2 ^ 52 < 2 ^ 53 * 2 ^ n" .
  show ?thesis
    using assms(3) by (intro round64_scaled [OF u m]) simp
qed

lemma round64_half: "round64 (1 / 2) = Finite (1 / 2)"
  by (subst round64_below_one [where n = 1]) (simp_all add: round_half_even_def)

lemma round64_quarter: "round64 (1 / 4) = Finite (1 / 4)"
  by (subst round64_below_one [where n = 2]) (simp_all add: round_half_even_def)

lemma round64_three_halves: "round64 (3 / 2) = Finite (3 / 2)"
  by (subst round64_above_one [where n = 0]) (simp_all add: round_half_even_def)

lemma round64_three_quarters: "round64 (3 / 4) = Finite (3 / 4)"
  by (subst round64_below_one [where n = 1]) (simp_all add: round_half_even_def)





lemma int_to_float_small:
  "int_to_float (Suc 0) = Finite 1" "int_to_float (Suc (Suc 0)) = Finite 2"
  "int_to_float (Suc (Suc (Suc 0))) = Finite 3"
  by (simp_all add: int_to_float_exact)

subsection \<open>Facts about the string operations\<close>

lemma join_Cons: "join sep (x # xs) = x @ concat (map (\<lambda>y. sep @ y) xs)"
  by (induction xs arbitrary: x) simp_all

lemma join_eq_Nil: "sep \<noteq> [] \<Longrightarrow> join sep xs = [] \<longleftrightarrow> xs = [] \<or> xs = [[]]"
  by (induction sep xs rule: join.induct) auto

lemma endswith_suffix: "endswith s suf \<longleftrightarrow> suffix suf s"
  unfolding endswith_def
  by (metis append_take_drop_id suffix_drop suffix_length_le suffix_take append_eq_conv_conj)

lemma print_line_not_empty: "out0 @ out1 @ print_line s \<noteq> []"
  by (simp add: print_line_def)

subsection \<open>The method \<open>detect_document\<close>\<close>

text \<open>
  C1. When the engine returns a non-empty list of recognized lines and raises nothing,
  \<open>ImageRecognitionService.detect_document\<close> returns the pair of the lines joined with
  single spaces, in the engine's order, and \<open>None\<close>.
\<close>

theorem detect_document_joins_lines:
  assumes "snd (readtext0 (reader self) p) = Inr ls" and "ls \<noteq> []"
  shows "fst (detect_document self p) = Inr (join '' '' ls, None)"
  using assms by (simp add: detect_document_def)

theorem detect_document_joins_lines_witness:
  "snd (readtext0 (reader (service_of hello_reader)) ''scan.png'') = Inr [''Hello'', ''world'']
   \<and> [''Hello'', ''world''] \<noteq> []
   \<and> fst (detect_document (service_of hello_reader) ''scan.png'') = Inr (''Hello world'', None)"
  using detect_document_joins_lines
    [of "service_of hello_reader" "''scan.png''" "[''Hello'', ''world'']"]
  by (simp add: service_of_def hello_reader_def)

text \<open>
  C2. When the engine finds no region and raises nothing,
  \<open>ImageRecognitionService.detect_document\<close> returns the empty text with the error
  \<open>No text detected in the image\<close>.
\<close>

theorem detect_document_no_text:
  assumes "snd (readtext0 (reader self) p) = Inr []"
  shows "fst (detect_document self p) = Inr ('''', Some ''No text detected in the image'')"
  using assms by (simp add: detect_document_def)

theorem detect_document_no_text_witness:
  "snd (readtext0 (reader (service_of blank_reader)) ''blank.png'') = Inr []
   \<and> fst (detect_document (service_of blank_reader) ''blank.png'')
     = Inr ('''', Some ''No text detected in the image'')"
  using detect_document_no_text [of "service_of blank_reader" "''blank.png''"]
  by (simp add: service_of_def blank_reader_def)

subsection \<open>Exceptions of the engine\<close>

text \<open>
  C3, as stated, fails. The module-level function constructs the engine before its
  \<open>try\<close>, so an exception of the constructor reaches the caller; when \<open>readtext\<close> raises
  inside the \<open>try\<close>, the function returns one non-empty string (the printed diagnostic),
  not an empty text with an error beside it; and an exception outside \<open>Exception\<close> passes
  through the handler of the method.
\<close>

theorem engine_exception_counterexample:
  "detect_document_fn failing_lib ''scan.png'' = Inl (Exception ''model file missing'')
   \<and> detect_document_fn (quiet_lib raising_reader) ''scan.png''
     = Inr (print_line ''Error processing image: cannot open file'')
   \<and> fst (detect_document (service_of interrupted_reader) ''scan.png'')
     = Inl (BaseExceptionOnly ''interrupted'')"
  by (simp add: detect_document_fn_def detect_document_def failing_lib_def quiet_lib_def
      raising_reader_def interrupted_reader_def service_of_def)

text \<open>
  C3, amended. When \<open>readtext\<close> raises an exception that derives from \<open>Exception\<close>, with
  message \<open>m\<close>: the two methods return the empty text (and confidence 0) with the error
  \<open>Error processing image: m\<close>; the module-level function returns one string, the captured
  output, which ends with that error and a newline. An exception of the engine's
  constructor in the module-level function propagates to the caller.
\<close>

theorem engine_exception_handling:
  "(snd (readtext0 (reader self) p) = Inl (Exception m) \<longrightarrow>
      fst (detect_document self p) = Inr ('''', Some (''Error processing image: '' @ m)))
   \<and> (snd (readtext1 (reader self) p) = Inl (Exception m) \<longrightarrow>
      fst (detect_document_with_confidence self p)
        = Inr ('''', Finite 0, Some (''Error processing image: '' @ m)))
   \<and> (Reader lib [''en''] = (out0, Inr rd) \<and> readtext0 rd p = (out1, Inl (Exception m)) \<longrightarrow>
      detect_document_fn lib p = Inr (out0 @ out1 @ print_line (''Error processing image: '' @ m)))
   \<and> (snd (Reader lib' [''en'']) = Inl e \<longrightarrow> detect_document_fn lib' p = Inl e)"
  by (auto simp: detect_document_def detect_document_with_confidence_def
      detect_document_fn_def split: prod.splits sum.splits)

theorem engine_exception_handling_witness:
  "snd (readtext0 (reader (service_of raising_reader)) ''scan.png'')
     = Inl (Exception ''cannot open file'')
   \<and> fst (detect_document (service_of raising_reader) ''scan.png'')
     = Inr ('''', Some ''Error processing image: cannot open file'')
   \<and> snd (readtext1 (reader (service_of raising_reader)) ''scan.png'')
     = Inl (Exception ''cannot open file'')
   \<and> fst (detect_document_with_confidence (service_of raising_reader) ''scan.png'')
     = Inr ('''', Finite 0, Some ''Error processing image: cannot open file'')
   \<and> Reader (quiet_lib raising_reader) [''en''] = ('''', Inr raising_reader)
   \<and> readtext0 raising_reader ''scan.png'' = ('''', Inl (Exception ''cannot open file''))
   \<and> detect_document_fn (quiet_lib raising_reader) ''scan.png''
     = Inr (print_line ''Error processing image: cannot open file'')
   \<and> snd (Reader failing_lib [''en'']) = Inl (Exception ''model file missing'')
   \<and> detect_document_fn failing_lib ''scan.png'' = Inl (Exception ''model file missing'')"
  using engine_exception_handling
    [of "service_of raising_reader" "''scan.png''" "''cannot open file''"
        "quiet_lib raising_reader" "''''" raising_reader "''''"
        failing_lib "Exception ''model file missing''"]
  by (simp add: service_of_def raising_reader_def quiet_lib_def failing_lib_def)

subsection \<open>The method \<open>detect_document_with_confidence\<close>\<close>

text \<open>
  The branch with at least one region: the guard \<open>if confidences\<close> holds, the length is
  converted to a non-zero float, and the division raises nothing.
\<close>

lemma with_confidence_regions:
  assumes "snd (readtext1 (reader self) p) = Inr rs" and "rs \<noteq> []"
  shows "detect_document_with_confidence self p =
           (Inr (join '' '' (map (fst \<circ> snd) rs),
                 float_div (py_sum (map (snd \<circ> snd) rs)) (int_to_float (length rs)),
                 None), self)"
proof -
  have texts: "map (\<lambda>(_, text, _). text) rs = map (fst \<circ> snd) rs"
    by (rule map_cong) auto
  have confs: "map (\<lambda>(_, _, conf). conf) rs = map (snd \<circ> snd) rs"
    by (rule map_cong) auto
  have "float_truediv (py_sum (map (snd \<circ> snd) rs)) (int_to_float (length rs))
          = Inr (float_div (py_sum (map (snd \<circ> snd) rs)) (int_to_float (length rs)))"
    using average_defined [of "map (snd \<circ> snd) rs"] assms(2) by simp
  with assms show ?thesis
    by (simp add: detect_document_with_confidence_def texts confs)
qed

lemma with_confidence_keeps_instance: "snd (detect_document_with_confidence self p) = self"
proof (cases "snd (readtext1 (reader self) p)")
  case (Inl x)
  then show ?thesis
    by (cases x) (simp_all add: detect_document_with_confidence_def)
next
  case (Inr rs)
  then show ?thesis
    by (cases "rs = []")
      (simp_all add: with_confidence_regions, simp add: detect_document_with_confidence_def)
qed

text \<open>The method on three of the concrete engines.\<close>

lemma hello_with_confidence:
  "detect_document_with_confidence (service_of hello_reader) p
     = (Inr (''Hello world'', Finite (3 / 4), None), service_of hello_reader)"
proof -
  have "py_sum [Finite (1 / 2), Finite 1] = Finite (3 / 2)"
    by (simp add: py_sum_def round64_half round64_three_halves)
  then show ?thesis
    using with_confidence_regions [of "service_of hello_reader" p
        "[([[0, 0], [40, 0], [40, 10], [0, 10]], ''Hello'', Finite (1 / 2)),
          ([[0, 20], [40, 20], [40, 30], [0, 30]], ''world'', Finite 1)]"]
    by (simp add: service_of_def hello_reader_def int_to_float_small round64_three_quarters)
qed

lemma empty_line_with_confidence:
  "detect_document_with_confidence (service_of empty_line_reader) p
     = (Inr ('''', Finite (1 / 4), None), service_of empty_line_reader)"
proof -
  have "py_sum [Finite (1 / 4)] = Finite (1 / 4)"
    by (simp add: py_sum_def round64_quarter)
  then show ?thesis
    using with_confidence_regions [of "service_of empty_line_reader" p
        "[([[0, 0], [40, 0], [40, 10], [0, 10]], '''', Finite (1 / 4))]"]
    by (simp add: service_of_def empty_line_reader_def int_to_float_small round64_quarter)
qed






text \<open>
  C6. If every confidence that the engine returns lies between 0 and 1, the confidence
  returned by \<open>detect_document_with_confidence\<close> lies between 0 and 1: the mean, and the 0
  of the path without regions and of the error path.
\<close>

theorem confidence_in_unit_interval:
  assumes scores: "\<forall>rs. snd (readtext1 (reader self) p) = Inr rs \<longrightarrow>
                     list_all (\<lambda>(_, _, conf). float_le (Finite 0) conf \<and> float_le conf (Finite 1)) rs"
      and returns: "fst (detect_document_with_confidence self p) = Inr (t, c, e)"
  shows "float_le (Finite 0) c \<and> float_le c (Finite 1)"
proof (cases "snd (readtext1 (reader self) p)")
  case (Inl x)
  with returns show ?thesis
    by (cases x) (auto simp: detect_document_with_confidence_def)
next
  case (Inr rs)
  show ?thesis
  proof (cases "rs = []")
    case True
    with Inr returns show ?thesis
      by (auto simp: detect_document_with_confidence_def)
  next
    case False
    let ?cs = "map (snd \<circ> snd) rs"
    from scores Inr
    have "list_all (\<lambda>(_, _, conf). float_le (Finite 0) conf \<and> float_le conf (Finite 1)) rs"
      by simp
    then have "\<forall>c \<in> set ?cs. float_le (Finite 0) c \<and> float_le c (Finite 1)"
      by (auto simp: list_all_iff)
    moreover from False have "?cs \<noteq> []"
      by simp
    ultimately obtain r
      where r: "float_div (py_sum ?cs) (int_to_float (length ?cs)) = Finite r" "0 \<le> r" "r \<le> 1"
      using average_unit [of ?cs] by blast
    from returns have "c = float_div (py_sum ?cs) (int_to_float (length rs))"
      by (simp add: with_confidence_regions [OF Inr False])
    with r show ?thesis
      by simp
  qed
qed

theorem confidence_in_unit_interval_witness:
  "fst (detect_document_with_confidence (service_of hello_reader) ''scan.png'')
     = Inr (''Hello world'', Finite (3 / 4), None)
   \<and> float_le (Finite 0) (Finite (3 / 4)) \<and> float_le (Finite (3 / 4)) (Finite 1)"
proof -
  have scores: "\<forall>rs. snd (readtext1 (reader (service_of hello_reader)) ''scan.png'') = Inr rs \<longrightarrow>
                  list_all (\<lambda>(_, _, conf). float_le (Finite 0) conf \<and> float_le conf (Finite 1)) rs"
    by (simp add: service_of_def hello_reader_def)
  have returns: "fst (detect_document_with_confidence (service_of hello_reader) ''scan.png'')
                   = Inr (''Hello world'', Finite (3 / 4), None)"
    by (simp add: hello_with_confidence)
  from confidence_in_unit_interval [OF scores returns] returns show ?thesis
    by simp
qed

subsection \<open>Text and error of a result\<close>

text \<open>
  C7, as stated, fails. When the engine detects one region and recognizes the empty
  string in it, the result is not empty, so both methods join it: the text is empty and
  the error is \<open>None\<close>.
\<close>

theorem text_xor_error_counterexample:
  "fst (detect_document (service_of empty_line_reader) ''scan.png'') = Inr ('''', None)
   \<and> fst (detect_document_with_confidence (service_of empty_line_reader) ''scan.png'')
     = Inr ('''', Finite (1 / 4), None)"
  by (simp add: detect_document_def empty_line_with_confidence)
    (simp add: service_of_def empty_line_reader_def)

text \<open>
  C7, amended. In every value that \<open>detect_document\<close> or
  \<open>detect_document_with_confidence\<close> returns, a non-empty text and an error are never
  both present; and both are absent exactly when the engine returned a single region
  whose recognized string is empty. In every other case exactly one of the two holds.
\<close>

theorem text_xor_error_amended:
  "(fst (detect_document self p) = Inr (t, e) \<longrightarrow>
      \<not> (t \<noteq> '''' \<and> e \<noteq> None)
      \<and> ((t = '''' \<and> e = None) \<longleftrightarrow> snd (readtext0 (reader self) p) = Inr ['''']))
   \<and> (fst (detect_document_with_confidence self p) = Inr (t', c, e') \<longrightarrow>
      \<not> (t' \<noteq> '''' \<and> e' \<noteq> None)
      \<and> ((t' = '''' \<and> e' = None) \<longleftrightarrow>
           (\<exists>b conf. snd (readtext1 (reader self) p) = Inr [(b, '''', conf)])))"
proof -
  have plain: "\<not> (t \<noteq> '''' \<and> e \<noteq> None)
      \<and> ((t = '''' \<and> e = None) \<longleftrightarrow> snd (readtext0 (reader self) p) = Inr [''''])"
    if "fst (detect_document self p) = Inr (t, e)"
  proof (cases "snd (readtext0 (reader self) p)")
    case (Inl x)
    with that show ?thesis
      by (cases x) (auto simp: detect_document_def)
  next
    case (Inr ls)
    with that show ?thesis
      by (auto simp: detect_document_def join_eq_Nil split: if_splits)
  qed
  have scored: "\<not> (t' \<noteq> '''' \<and> e' \<noteq> None)
      \<and> ((t' = '''' \<and> e' = None) \<longleftrightarrow>
           (\<exists>b conf. snd (readtext1 (reader self) p) = Inr [(b, '''', conf)]))"
    if "fst (detect_document_with_confidence self p) = Inr (t', c, e')"
  proof (cases "snd (readtext1 (reader self) p)")
    case (Inl x)
    with that show ?thesis
      by (cases x) (auto simp: detect_document_with_confidence_def)
  next
    case (Inr rs)
    show ?thesis
    proof (cases "rs = []")
      case True
      with that Inr show ?thesis
        by (auto simp: detect_document_with_confidence_def)
    next
      case False
      have single: "map (fst \<circ> snd) rs = [''''] \<longleftrightarrow> (\<exists>b conf. rs = [(b, '''', conf)])"
        by (cases rs) auto
      from that show ?thesis
        by (auto simp: with_confidence_regions [OF Inr False] Inr join_eq_Nil single False)
    qed
  qed
  from plain scored show ?thesis
    by blast
qed

theorem text_xor_error_amended_witness:
  "fst (detect_document (service_of raising_reader) ''scan.png'')
     = Inr ('''', Some ''Error processing image: cannot open file'')
   \<and> snd (readtext0 (reader (service_of raising_reader)) ''scan.png'') \<noteq> Inr ['''']
   \<and> fst (detect_document_with_confidence (service_of hello_reader) ''scan.png'')
     = Inr (''Hello world'', Finite (3 / 4), None)
   \<and> \<not> (''Hello world'' \<noteq> '''' \<and> (None :: string option) \<noteq> None)"
  using text_xor_error_amended
    [of "service_of raising_reader" "''scan.png''" "''''"
        "Some ''Error processing image: cannot open file''"]
    text_xor_error_amended
    [of "service_of hello_reader" "''scan.png''" _ _ "''Hello world''" "Finite (3 / 4)" None]
  by (simp add: detect_document_def hello_with_confidence)
    (simp add: service_of_def raising_reader_def)

subsection \<open>The method \<open>is_supported_format\<close>\<close>

lemma lower_a_PNG: "lower ''a.PNG'' = ''a.png''"
  by code_simp

lemma lower_a_txt: "lower ''a.txt'' = ''a.txt''"
  by code_simp

text \<open>
  C5. \<open>is_supported_format\<close> returns true exactly when the lower-cased path ends with one
  of \<open>.jpg\<close>, \<open>.jpeg\<close>, \<open>.png\<close>, \<open>.gif\<close>, \<open>.bmp\<close>, \<open>.webp\<close>, \<open>.ico\<close>; it is true of \<open>a.PNG\<close> and
  false of \<open>a.txt\<close>; and the result is a function of the path string alone: it is the same
  on every instance, whatever engine the instance holds.
\<close>

theorem is_supported_format_suffixes:
  "(fst (is_supported_format self file_path) \<longleftrightarrow>
      suffix ''.jpg'' (lower file_path) \<or> suffix ''.jpeg'' (lower file_path)
      \<or> suffix ''.png'' (lower file_path) \<or> suffix ''.gif'' (lower file_path)
      \<or> suffix ''.bmp'' (lower file_path) \<or> suffix ''.webp'' (lower file_path)
      \<or> suffix ''.ico'' (lower file_path))
   \<and> fst (is_supported_format self ''a.PNG'')
   \<and> \<not> fst (is_supported_format self ''a.txt'')
   \<and> fst (is_supported_format self file_path) = fst (is_supported_format self' file_path)"
proof -
  have "fst (is_supported_format self ''a.PNG'')"
    by (simp add: is_supported_format_def supported_formats_def endswith_def lower_a_PNG)
  moreover have "\<not> fst (is_supported_format self ''a.txt'')"
    by (simp add: is_supported_format_def supported_formats_def endswith_def lower_a_txt)
  ultimately show ?thesis
    by (simp add: is_supported_format_def supported_formats_def endswith_suffix)
qed

subsection \<open>The module-level function\<close>

text \<open>
  C8, as stated, fails. What the function returns on the diagnostic paths is everything
  captured from standard output, and the engine runs under the same redirection: when
  the constructor prints, the returned string is longer than the diagnostic line.
\<close>

theorem module_detect_document_counterexample:
  "detect_document_fn chatty_lib ''blank.png''
     = Inr (''Progress: 100.0% Complete'' @ print_line ''No text detected in the image'')
   \<and> detect_document_fn chatty_lib ''blank.png''
     \<noteq> Inr (print_line ''No text detected in the image'')"
  by (simp add: detect_document_fn_def chatty_lib_def blank_reader_def print_line_def)

text \<open>
  C8, amended. Once the engine is constructed, the module-level function returns a single
  string. With a non-empty result it is the recognized lines joined with single spaces.
  With an empty result, or when \<open>readtext\<close> raises an exception deriving from \<open>Exception\<close>,
  it is the captured standard output: what the engine printed, followed by
  \<open>No text detected in the image\<close> or \<open>Error processing image: m\<close> and a newline (that
  line alone when the engine printed nothing). On these two paths it is never empty.
\<close>

theorem module_detect_document_returns_string:
  assumes "Reader lib [''en''] = (out0, Inr rd)"
  shows "(readtext0 rd p = (out1, Inr ls) \<and> ls \<noteq> [] \<longrightarrow>
            detect_document_fn lib p = Inr (join '' '' ls))
       \<and> (readtext0 rd p = (out1, Inr []) \<longrightarrow>
            detect_document_fn lib p
              = Inr (out0 @ out1 @ print_line ''No text detected in the image'')
            \<and> detect_document_fn lib p \<noteq> Inr ''''
            \<and> (out0 = '''' \<and> out1 = '''' \<longrightarrow>
                 detect_document_fn lib p = Inr (print_line ''No text detected in the image'')))
       \<and> (readtext0 rd p = (out1, Inl (Exception m)) \<longrightarrow>
            detect_document_fn lib p
              = Inr (out0 @ out1 @ print_line (''Error processing image: '' @ m))
            \<and> detect_document_fn lib p \<noteq> Inr ''''
            \<and> (out0 = '''' \<and> out1 = '''' \<longrightarrow>
                 detect_document_fn lib p
                   = Inr (print_line (''Error processing image: '' @ m))))"
  using assms
  by (simp add: detect_document_fn_def print_line_not_empty del: append_is_Nil_conv)

theorem module_detect_document_returns_string_witness:
  "detect_document_fn (quiet_lib hello_reader) ''scan.png'' = Inr ''Hello world''
   \<and> detect_document_fn (quiet_lib blank_reader) ''blank.png''
     = Inr (print_line ''No text detected in the image'')
   \<and> detect_document_fn (quiet_lib raising_reader) ''missing.png''
     = Inr (print_line ''Error processing image: cannot open file'')"
proof -
  have ctor: "Reader (quiet_lib rd) [''en''] = ('''', Inr rd)" for rd
    by (simp add: quiet_lib_def)
  have "readtext0 hello_reader ''scan.png'' = ('''', Inr [''Hello'', ''world''])"
    and "readtext0 blank_reader ''blank.png'' = ('''', Inr [])"
    and "readtext0 raising_reader ''missing.png'' = ('''', Inl (Exception ''cannot open file''))"
    by (simp_all add: hello_reader_def blank_reader_def raising_reader_def)
  with module_detect_document_returns_string
         [OF ctor, of hello_reader "''scan.png''" "''''" "[''Hello'', ''world'']"]
       module_detect_document_returns_string [OF ctor, of blank_reader "''blank.png''" "''''"]
       module_detect_document_returns_string
         [OF ctor, of raising_reader "''missing.png''" "''''" _ "''cannot open file''"]
  show ?thesis
    by simp
qed

subsection \<open>Construction\<close>

text \<open>
  C9. When the engine's constructor returns, constructing the service with \<open>None\<close> or
  with the empty list gives an instance whose \<open>languages\<close> is \<open>['en']\<close>, and constructing it
  with a non-empty list gives an instance whose \<open>languages\<close> is that list.
\<close>

theorem init_languages:
  "(snd (Reader lib [''en'']) = Inr r \<longrightarrow>
      init lib None = Inr \<lparr>languages = [''en''], reader = r\<rparr>
      \<and> init lib (Some []) = Inr \<lparr>languages = [''en''], reader = r\<rparr>)
   \<and> (l \<noteq> [] \<and> snd (Reader lib l) = Inr r' \<longrightarrow>
      init lib (Some l) = Inr \<lparr>languages = l, reader = r'\<rparr>)
   \<and> (init lib langs = Inr self \<longrightarrow>
      languages self = (case langs of None \<Rightarrow> [''en'']
                        | Some l \<Rightarrow> if l = [] then [''en''] else l))"
  by (auto simp: init_def Let_def split: option.splits sum.splits)

theorem init_languages_witness:
  "snd (Reader (quiet_lib hello_reader) [''en'']) = Inr hello_reader
   \<and> init (quiet_lib hello_reader) None = Inr \<lparr>languages = [''en''], reader = hello_reader\<rparr>
   \<and> init (quiet_lib hello_reader) (Some []) = Inr \<lparr>languages = [''en''], reader = hello_reader\<rparr>
   \<and> [''fr'', ''de''] \<noteq> []
   \<and> init (quiet_lib hello_reader) (Some [''fr'', ''de''])
     = Inr \<lparr>languages = [''fr'', ''de''], reader = hello_reader\<rparr>
   \<and> languages \<lparr>languages = [''fr'', ''de''], reader = hello_reader\<rparr> = [''fr'', ''de'']"
  using init_languages
    [of "quiet_lib hello_reader" hello_reader "[''fr'', ''de'']" hello_reader
        "Some [''fr'', ''de'']" "\<lparr>languages = [''fr'', ''de''], reader = hello_reader\<rparr>"]
  by (simp add: quiet_lib_def)

subsection \<open>The instance is not modified\<close>

lemma invoke_keeps_instance: "snd (invoke self c) = self"
proof (cases c)
  case (Detect_document p)
  then show ?thesis
    by (simp add: detect_document_def split: sum.splits exn.splits prod.splits)
next
  case (Detect_document_with_confidence p)
  then show ?thesis
    using with_confidence_keeps_instance [of self p] by (auto split: prod.splits)
next
  case (Is_supported_format p)
  then show ?thesis
    by (simp add: is_supported_format_def)
qed

text \<open>
  C10. After any sequence of calls of \<open>detect_document\<close>, \<open>detect_document_with_confidence\<close>
  and \<open>is_supported_format\<close> on an instance, the instance is as it was: \<open>languages\<close> and
  \<open>reader\<close> hold the values they held before, and as many results came back as calls
  went in.
\<close>

theorem run_keeps_instance:
  "snd (run self cs) = self
   \<and> languages (snd (run self cs)) = languages self
   \<and> reader (snd (run self cs)) = reader self
   \<and> length (fst (run self cs)) = length cs"
proof (induction cs)
  case Nil
  show ?case by simp
next
  case (Cons c cs)
  obtain r where step: "invoke self c = (r, self)"
    using invoke_keeps_instance [of self c] by (cases "invoke self c") simp
  obtain rs where rest: "run self cs = (rs, self)" "length rs = length cs"
    using Cons.IH by (cases "run self cs") simp
  show ?case
    by (simp add: step rest)
qed

end
